theory Spec2Isabelle
  imports Complex_Main
begin

section \<open>Values thrown and the collaborators of the unit of work\<close>

text \<open>
  A thrown value is an error object with a \<open>name\<close> and an optional \<open>message\<close>
  (\<open>error.message?.includes\<close> in the source allows the message to be missing).
  \<open>new Error(msg)\<close> has the name \<open>Error\<close>.
\<close>

record error =
  name :: string
  message :: "string option"

definition new_Error :: "string \<Rightarrow> error" where
  "new_Error msg = \<lparr>name = ''Error'', message = Some msg\<rparr>"

text \<open>
  What \<open>ResilientUnitOfWork.executeTransaction\<close> can throw: an error object it caught, or
  the initial value of \<open>lastError\<close>, which is \<open>undefined\<close>.
\<close>

datatype thrown = Undefined | Raised error

text \<open>A session handle (\<open>ClientSession\<close>); the slot \<open>this.session\<close> is \<open>None\<close> for \<open>null\<close>.\<close>

type_synonym sid = nat

text \<open>
  The store (mongoose \<open>Connection\<close> and \<open>ClientSession\<close>) is not part of the repository:
  it is a parameter. \<open>'w\<close> is the state of the store; every call but \<open>inTransaction\<close>
  may fail and may change that state.
\<close>

record 'w store =
  startSession :: "'w \<Rightarrow> (error + sid) \<times> 'w"
  startTransaction :: "sid \<Rightarrow> 'w \<Rightarrow> error option \<times> 'w"
  inTransaction :: "sid \<Rightarrow> 'w \<Rightarrow> bool"
  commitTransaction :: "sid \<Rightarrow> 'w \<Rightarrow> error option \<times> 'w"
  abortTransaction :: "sid \<Rightarrow> 'w \<Rightarrow> error option \<times> 'w"
  endSession :: "sid \<Rightarrow> 'w \<Rightarrow> error option \<times> 'w"

text \<open>
  A JavaScript number: a double. A finite one is a sign, a significand and a binary exponent,
  \<open>Finite sg m e\<close> for plus or minus \<open>m\<close> times 2 to the \<open>e\<close> (with \<open>sg\<close> for minus; zero has a
  sign too; in a double the significand has at most 53 bits and the exponent is at least
  -1074); the others are the two infinities and NaN.
\<close>

datatype double = Finite bool nat int | Infinity bool | NaN

text \<open>
  The arithmetic of the runtime that \<open>calculateBackoffDelay\<close> uses (\<open>*\<close>, \<open>Math.pow\<close> with
  a count as exponent, \<open>Math.min\<close>) is not part of the repository: it is a parameter.
\<close>

record arith =
  js_times :: "double \<Rightarrow> double \<Rightarrow> double"
  js_pow :: "double \<Rightarrow> nat \<Rightarrow> double"
  js_min :: "double \<Rightarrow> double \<Rightarrow> double"

text \<open>
  The calls the manager issues to its collaborators, in order: the store, the caller's
  transaction function, the logger (level, message, the values passed along) and the timer.
  A template literal is recorded as its text with the interpolated values as details.
\<close>

datatype level = Debug | Info | Warn | Error

datatype detail = DError error | DNumber double | DCount int

datatype event =
    StartSession
  | StartTransaction sid
  | CommitTransaction sid
  | AbortTransaction sid
  | EndSession sid
  | Invoke sid
  | Log level string "detail list"
  | Delay double

text \<open>
  The state of one manager: the private field \<open>session\<close>, the state of the store, and the
  calls issued so far. The connection, the logger and the transaction options never change
  after construction; the options are passed unchanged to \<open>startSession\<close> and are part of the
  store parameter.
\<close>

record 'w uow =
  session :: "sid option"
  world :: "'w"
  trace :: "event list"

text \<open>
  \<open>TransactionFunction\<close>: it receives the session and works on the store. It is taken not to
  call the manager's own lifecycle methods through its second argument.
\<close>

type_synonym ('w, 'r) transactionFn = "sid \<Rightarrow> 'w \<Rightarrow> (error + 'r) \<times> 'w"

type_synonym ('w, 'a) action = "'w uow \<Rightarrow> (error + 'a) \<times> 'w uow"

definition emit :: "event \<Rightarrow> 'w uow \<Rightarrow> 'w uow" where
  "emit ev s = s\<lparr>trace := trace s @ [ev]\<rparr>"

definition logger :: "level \<Rightarrow> string \<Rightarrow> detail list \<Rightarrow> 'w uow \<Rightarrow> 'w uow" where
  "logger lv msg ds s = emit (Log lv msg ds) s"

text \<open>A call to the store on a session: the call is recorded and the store moves on.\<close>

definition call :: "event \<Rightarrow> ('w \<Rightarrow> 'a \<times> 'w) \<Rightarrow> 'w uow \<Rightarrow> 'a \<times> 'w uow" where
  "call ev f s = (case f (world s) of (r, w') \<Rightarrow> (r, (emit ev s)\<lparr>world := w'\<rparr>))"

section \<open>UnitOfWork\<close>

definition begin_uow :: "'w store \<Rightarrow> ('w, unit) action" where
  "begin_uow st s =
    (case session s of
       Some h \<Rightarrow>
         (Inl (new_Error ''A session is already active''),
          logger Warn ''A session is already active'' [] s)
     | None \<Rightarrow>
         (case call StartSession (startSession st)
                 (logger Debug ''Starting new transaction session'' [] s) of
            (Inl e, s1) \<Rightarrow> (Inl e, s1)
          | (Inr h, s1) \<Rightarrow>
              (case call (StartTransaction h) (startTransaction st h) (s1\<lparr>session := Some h\<rparr>) of
                 (Some e, s2) \<Rightarrow> (Inl e, s2)
               | (None, s2) \<Rightarrow> (Inr (), s2))))"

definition getSession :: "'w uow \<Rightarrow> error + sid" where
  "getSession s =
    (case session s of
       None \<Rightarrow> Inl (new_Error ''No active transaction. Call begin() first.'')
     | Some h \<Rightarrow> Inr h)"

definition execute :: "('w, 'r) transactionFn \<Rightarrow> ('w, 'r) action" where
  "execute transactionFn s =
    (case session s of
       None \<Rightarrow>
         (Inl (new_Error ''No active transaction. Call begin() first.''),
          logger Warn ''No active transaction. Call begin() first.'' [] s)
     | Some h \<Rightarrow>
         (case call (Invoke h) (transactionFn h)
                 (logger Debug ''Executing transaction function'' [] s) of
            (Inr result, s1) \<Rightarrow> (Inr result, s1)
          | (Inl e, s1) \<Rightarrow> (Inl e, logger Error ''Error executing transaction'' [DError e] s1)))"

definition abort :: "'w store \<Rightarrow> ('w, unit) action" where
  "abort st s =
    (case session s of
       None \<Rightarrow> (Inr (), s)
     | Some h \<Rightarrow>
         if \<not> inTransaction st h (world s) then (Inr (), s)
         else
           (case call (AbortTransaction h) (abortTransaction st h)
                   (logger Debug ''Aborting transaction'' [] s) of
              (None, s1) \<Rightarrow> (Inr (), logger Info ''Transaction aborted successfully'' [] s1)
            | (Some e, s1) \<Rightarrow> (Inr (), logger Error ''Error aborting transaction'' [DError e] s1)))"

text \<open>
  In the \<open>catch\<close> clauses \<open>await this.abort(); throw error\<close>: an error of \<open>abort\<close> would
  come first.
\<close>

definition abort_then_throw :: "'w store \<Rightarrow> error \<Rightarrow> ('w, 'a) action" where
  "abort_then_throw st e s =
    (case abort st s of
       (Inl e', s1) \<Rightarrow> (Inl e', s1)
     | (Inr u, s1) \<Rightarrow> (Inl e, s1))"

definition commit :: "'w store \<Rightarrow> ('w, unit) action" where
  "commit st s =
    (case session s of
       None \<Rightarrow> (Inr (), s)
     | Some h \<Rightarrow>
         if \<not> inTransaction st h (world s) then (Inr (), s)
         else
           (case call (CommitTransaction h) (commitTransaction st h)
                   (logger Debug ''Committing transaction'' [] s) of
              (None, s1) \<Rightarrow> (Inr (), logger Info ''Transaction committed successfully'' [] s1)
            | (Some e, s1) \<Rightarrow>
                abort_then_throw st e
                  (logger Error ''Error committing transaction'' [DError e] s1)))"

definition dispose :: "'w store \<Rightarrow> ('w, unit) action" where
  "dispose st s =
    (case session s of
       None \<Rightarrow> (Inr (), s)
     | Some h \<Rightarrow>
         (case call (EndSession h) (endSession st h)
                 (logger Debug ''Disposing transaction session'' [] s) of
            (Some e, s1) \<Rightarrow> (Inl e, s1)
          | (None, s1) \<Rightarrow> (Inr (), s1\<lparr>session := None\<rparr>)))"

text \<open>The three parts of \<open>executeTransaction\<close>: the \<open>try\<close> block, \<open>catch\<close> and \<open>finally\<close>.\<close>

definition try_block :: "'w store \<Rightarrow> ('w, 'r) transactionFn \<Rightarrow> ('w, 'r) action" where
  "try_block st transactionFn s =
    (case begin_uow st (logger Debug ''Starting transaction execution'' [] s) of
       (Inl e, s1) \<Rightarrow> (Inl e, s1)
     | (Inr u, s1) \<Rightarrow>
         (case execute transactionFn s1 of
            (Inl e, s2) \<Rightarrow> (Inl e, s2)
          | (Inr result, s2) \<Rightarrow>
              (case commit st s2 of
                 (Inl e, s3) \<Rightarrow> (Inl e, s3)
               | (Inr u', s3) \<Rightarrow>
                   (Inr result, logger Info ''Transaction executed successfully'' [] s3))))"

definition try_catch :: "'w store \<Rightarrow> ('w, 'r) transactionFn \<Rightarrow> ('w, 'r) action" where
  "try_catch st transactionFn s =
    (case try_block st transactionFn s of
       (Inr result, s1) \<Rightarrow> (Inr result, s1)
     | (Inl e, s1) \<Rightarrow>
         abort_then_throw st e (logger Error ''Transaction execution failed'' [DError e] s1))"

text \<open>\<open>finally\<close>: an error of \<open>dispose\<close> replaces the result or the error of the rest.\<close>

definition finally_dispose :: "'w store \<Rightarrow> (error + 'r) \<times> 'w uow \<Rightarrow> (error + 'r) \<times> 'w uow" where
  "finally_dispose st rs =
    (case dispose st (snd rs) of
       (Inl e, s2) \<Rightarrow> (Inl e, s2)
     | (Inr u, s2) \<Rightarrow> (fst rs, s2))"

definition executeTransaction :: "'w store \<Rightarrow> ('w, 'r) transactionFn \<Rightarrow> ('w, 'r) action" where
  "executeTransaction st transactionFn s = finally_dispose st (try_catch st transactionFn s)"

section \<open>ResilientUnitOfWork\<close>

text \<open>
  \<open>RetryOptions\<close>. The number of retries is an integer, possibly negative; the delays and
  the factor are doubles; \<open>retryableErrors\<close> is optional.
\<close>

record retryOptions =
  maxRetries :: int
  initialDelayMs :: double
  maxDelayMs :: double
  backoffFactor :: double
  retryableErrors :: "string list option"

text \<open>The defaults: 100 is 25 times 4, 1000 is 125 times 8, 2 is 1 times 2.\<close>

definition DEFAULT_RETRY_OPTIONS :: retryOptions where
  "DEFAULT_RETRY_OPTIONS =
    \<lparr>maxRetries = 3, initialDelayMs = Finite False 25 2, maxDelayMs = Finite False 125 3,
     backoffFactor = Finite False 1 1,
     retryableErrors = Some [''TransientTransactionError'', ''UnknownTransactionCommitResult'']\<rparr>"

text \<open>\<open>String.prototype.includes\<close>: the second string occurs somewhere in the first.\<close>

fun startsWith :: "'a list \<Rightarrow> 'a list \<Rightarrow> bool" where
  "startsWith cs [] = True"
| "startsWith [] (t # ts) = False"
| "startsWith (c # cs) (t # ts) = (c = t \<and> startsWith cs ts)"

fun includes_str :: "'a list \<Rightarrow> 'a list \<Rightarrow> bool" where
  "includes_str [] ts = startsWith [] ts"
| "includes_str (c # cs) ts = (startsWith (c # cs) ts \<or> includes_str cs ts)"

definition isRetryableError :: "retryOptions \<Rightarrow> error \<Rightarrow> bool" where
  "isRetryableError opts err =
    (case retryableErrors opts of
       None \<Rightarrow> False
     | Some errorTypes \<Rightarrow>
         list_ex (\<lambda>errorType.
             name err = errorType \<or>
             (case message err of None \<Rightarrow> False | Some m \<Rightarrow> includes_str m errorType))
           errorTypes)"

definition calculateBackoffDelay :: "arith \<Rightarrow> retryOptions \<Rightarrow> nat \<Rightarrow> double" where
  "calculateBackoffDelay ar opts retryCount =
    (let delay = js_min ar
           (js_times ar (initialDelayMs opts) (js_pow ar (backoffFactor opts) retryCount))
           (maxDelayMs opts)
     in delay)"

definition delay :: "double \<Rightarrow> 'w uow \<Rightarrow> 'w uow" where
  "delay ms s = emit (Delay ms) s"

text \<open>The \<open>try\<close> block of one round of the loop.\<close>

definition try_attempt ::
  "retryOptions \<Rightarrow> 'w store \<Rightarrow> ('w, 'r) transactionFn \<Rightarrow> nat \<Rightarrow> ('w, 'r) action" where
  "try_attempt opts st transactionFn attempt s =
    executeTransaction st transactionFn
      (if attempt > 0
       then logger Info ''Retry attempt ${attempt} of ${maxRetries}''
              [DCount (int attempt), DCount (maxRetries opts)] s
       else s)"

text \<open>The \<open>catch\<close> clause where it throws, and where it waits for the next round.\<close>

definition give_up :: "retryOptions \<Rightarrow> nat \<Rightarrow> error \<Rightarrow> 'w uow \<Rightarrow> 'w uow" where
  "give_up opts attempt err s =
    logger Error ''Transaction failed after ${attempt} retries''
      [DCount (int attempt), DError err, DCount (maxRetries opts)] s"

definition back_off :: "arith \<Rightarrow> retryOptions \<Rightarrow> nat \<Rightarrow> error \<Rightarrow> 'w uow \<Rightarrow> 'w uow" where
  "back_off ar opts attempt err s =
    (let delayMs = calculateBackoffDelay ar opts attempt
     in delay delayMs
          (logger Warn ''Retryable error occurred, retrying in ${delayMs}ms''
             [DNumber delayMs, DError err, DCount (int attempt), DCount (int (attempt + 1))] s))"

text \<open>
  The \<open>for\<close> loop from round \<open>attempt\<close> on, with the current value of \<open>lastError\<close>
  (\<open>None\<close> for \<open>undefined\<close>); after the loop, \<open>throw lastError\<close>.
\<close>

function retry_loop ::
  "arith \<Rightarrow> retryOptions \<Rightarrow> 'w store \<Rightarrow> ('w, 'r) transactionFn \<Rightarrow> nat \<Rightarrow> error option \<Rightarrow>
   'w uow \<Rightarrow> (thrown + 'r) \<times> 'w uow" where
  "retry_loop ar opts st transactionFn attempt lastError s =
    (if int attempt \<le> maxRetries opts then
       (case try_attempt opts st transactionFn attempt s of
          (Inr result, s1) \<Rightarrow> (Inr result, s1)
        | (Inl err, s1) \<Rightarrow>
            if int attempt = maxRetries opts \<or> \<not> isRetryableError opts err
            then (Inl (Raised err), give_up opts attempt err s1)
            else retry_loop ar opts st transactionFn (attempt + 1) (Some err)
                   (back_off ar opts attempt err s1))
     else (Inl (case lastError of None \<Rightarrow> Undefined | Some e \<Rightarrow> Raised e), s))"
  by pat_completeness auto
termination
  by (relation "measure (\<lambda>(ar, opts, st, transactionFn, attempt, lastError, s).
        nat (maxRetries opts + 1 - int attempt))") auto

declare retry_loop.simps [simp del]

definition resilient_executeTransaction ::
  "arith \<Rightarrow> retryOptions \<Rightarrow> 'w store \<Rightarrow> ('w, 'r) transactionFn \<Rightarrow> 'w uow \<Rightarrow>
   (thrown + 'r) \<times> 'w uow" where
  "resilient_executeTransaction ar opts st transactionFn s =
    retry_loop ar opts st transactionFn 0 None s"

section \<open>Double-precision arithmetic\<close>

text \<open>
  The product of two doubles is the exact product rounded to the nearest double, ties to
  the even significand: 53 bits of significand, the least exponent -1074 (below it the
  significand loses bits), and infinity from 2 to the 1024 on.
\<close>

fun bit_length :: "nat \<Rightarrow> nat" where
  "bit_length n = (if n = 0 then 0 else Suc (bit_length (n div 2)))"

declare bit_length.simps [simp del]

definition overflow_check :: "bool \<Rightarrow> nat \<Rightarrow> int \<Rightarrow> double" where
  "overflow_check sg m e = (if int (bit_length m) + e > 1024 then Infinity sg else Finite sg m e)"

definition round_to_double :: "bool \<Rightarrow> nat \<Rightarrow> int \<Rightarrow> double" where
  "round_to_double sg m e =
    (let e' = max (e + int (bit_length m) - 53) (- 1074)
     in if e' \<le> e then overflow_check sg m e
        else
          (let k = nat (e' - e); q = m div 2 ^ k; r = m mod 2 ^ k; half = 2 ^ (k - 1)
           in overflow_check sg (if r > half \<or> (r = half \<and> odd q) then q + 1 else q) e'))"

text \<open>\<open>Number::multiply\<close> of ECMAScript.\<close>

fun ieee_times :: "double \<Rightarrow> double \<Rightarrow> double" where
  "ieee_times NaN y = NaN"
| "ieee_times x NaN = NaN"
| "ieee_times (Infinity s) (Infinity t) = Infinity (s \<noteq> t)"
| "ieee_times (Infinity s) (Finite t n f) = (if n = 0 then NaN else Infinity (s \<noteq> t))"
| "ieee_times (Finite s m e) (Infinity t) = (if m = 0 then NaN else Infinity (s \<noteq> t))"
| "ieee_times (Finite s m e) (Finite t n f) = round_to_double (s \<noteq> t) (m * n) (e + f)"

text \<open>The real number a finite double stands for.\<close>

definition val :: "bool \<Rightarrow> nat \<Rightarrow> int \<Rightarrow> real" where
  "val sg m e =
    (if sg then - 1 else 1) * real m * (if 0 \<le> e then 2 ^ nat e else 1 / 2 ^ nat (- e))"

fun value_of :: "double \<Rightarrow> real option" where
  "value_of (Finite sg m e) = Some (val sg m e)"
| "value_of d = None"

text \<open>\<open>x < y\<close> on numbers, and \<open>Math.min\<close> of two numbers as ECMAScript defines it.\<close>

fun js_less :: "double \<Rightarrow> double \<Rightarrow> bool" where
  "js_less NaN y = False"
| "js_less x NaN = False"
| "js_less (Infinity s) (Infinity t) = (s \<and> \<not> t)"
| "js_less (Infinity s) (Finite t n f) = s"
| "js_less (Finite s m e) (Infinity t) = (\<not> t)"
| "js_less (Finite s m e) (Finite t n f) = (val s m e < val t n f)"

fun is_zero :: "bool \<Rightarrow> double \<Rightarrow> bool" where
  "is_zero sg (Finite s m e) = (s = sg \<and> m = 0)"
| "is_zero sg d = False"

fun ecma_min :: "double \<Rightarrow> double \<Rightarrow> double" where
  "ecma_min NaN y = NaN"
| "ecma_min x NaN = NaN"
| "ecma_min x y =
    (if is_zero True y \<and> is_zero False x then y else if js_less y x then y else x)"

text \<open>
  \<open>Math.pow\<close> is left to the implementation by ECMAScript; with it, the arithmetic of a
  runtime. One such \<open>Math.pow\<close> rounds the exact power.
\<close>

definition ieee :: "(double \<Rightarrow> nat \<Rightarrow> double) \<Rightarrow> arith" where
  "ieee pw = \<lparr>js_times = ieee_times, js_pow = pw, js_min = ecma_min\<rparr>"

definition exact_pow :: "double \<Rightarrow> nat \<Rightarrow> double" where
  "exact_pow x n =
    (if n = 0 then Finite False 1 0
     else case x of
       NaN \<Rightarrow> NaN
     | Infinity sg \<Rightarrow> Infinity (sg \<and> odd n)
     | Finite sg m e \<Rightarrow> round_to_double (sg \<and> odd n) (m ^ n) (e * int n))"

section \<open>Reading a trace\<close>

text \<open>The calls that reach the store, the transaction function or the timer: all but the logger's.\<close>

fun is_Log :: "event \<Rightarrow> bool" where
  "is_Log (Log lv msg ds) = True"
| "is_Log ev = False"

definition calls :: "event list \<Rightarrow> event list" where
  "calls tr = filter (\<lambda>ev. \<not> is_Log ev) tr"

text \<open>
  The calls of one round of the lifecycle in which the transaction function fails: a session
  is started, a transaction is started on it, the function is invoked, the transaction is
  aborted if the session still reports one, and the session is ended.
\<close>

definition failed_lifecycle :: "sid \<Rightarrow> bool \<Rightarrow> event list" where
  "failed_lifecycle h aborted =
    [StartSession, StartTransaction h, Invoke h] @
    (if aborted then [AbortTransaction h] else []) @ [EndSession h]"

text \<open>
  The errors the transaction function threw, in order: \<open>execute\<close> hands each one to the
  logger before it throws it again.
\<close>

fun thrown_by_unit :: "event \<Rightarrow> error list" where
  "thrown_by_unit (Log lv msg [DError e]) =
    (if lv = Error \<and> msg = ''Error executing transaction'' then [e] else [])"
| "thrown_by_unit ev = []"

definition unit_errors :: "event list \<Rightarrow> error list" where
  "unit_errors tr = concat (map thrown_by_unit tr)"

section \<open>Example stores and transaction functions\<close>

text \<open>
  A store with one session handle whose world is the state of that session's transaction.
  Its commit, abort and end-of-session calls fail with the given errors, if any; after a
  failed commit the session reports a transaction in progress only if \<open>stillActive\<close>.
\<close>

datatype txn = NoTransaction | InProgress | Committed | Aborted

definition scripted_store ::
  "error option \<Rightarrow> bool \<Rightarrow> error option \<Rightarrow> error option \<Rightarrow> txn store" where
  "scripted_store commitErr stillActive abortErr endErr =
    \<lparr>startSession = (\<lambda>w. (Inr 7, NoTransaction)),
     startTransaction = (\<lambda>h w. (None, InProgress)),
     inTransaction = (\<lambda>h w. w = InProgress),
     commitTransaction = (\<lambda>h w.
        (commitErr, if commitErr \<noteq> None \<and> stillActive then InProgress else Committed)),
     abortTransaction = (\<lambda>h w. (abortErr, Aborted)),
     endSession = (\<lambda>h w. (endErr, NoTransaction))\<rparr>"

definition reliable_store :: "txn store" where
  "reliable_store = scripted_store None False None None"

definition returning :: "'r \<Rightarrow> (txn, 'r) transactionFn" where
  "returning r h w = (Inr r, w)"

definition throwing :: "error \<Rightarrow> (txn, nat) transactionFn" where
  "throwing e h w = (Inl e, w)"

definition transient :: error where
  "transient = \<lparr>name = ''TransientTransactionError'', message = None\<rparr>"

definition write_conflict :: error where
  "write_conflict = \<lparr>name = ''MongoServerError'', message = Some ''WriteConflict''\<rparr>"

definition network_down :: error where
  "network_down = \<lparr>name = ''MongoNetworkError'', message = Some ''connection closed''\<rparr>"

definition session_lost :: error where
  "session_lost = \<lparr>name = ''MongoExpiredSessionError'', message = None\<rparr>"

text \<open>Options with the double nearest to 0.1 as the initial delay and 3 as the factor.\<close>

definition tenth_tripled :: retryOptions where
  "tenth_tripled =
    \<lparr>maxRetries = 3, initialDelayMs = Finite False 3602879701896397 (- 55),
     maxDelayMs = Finite False 125 3, backoffFactor = Finite False 3 0,
     retryableErrors = None\<rparr>"

definition idle :: "txn uow" where
  "idle = \<lparr>session = None, world = NoTransaction, trace = []\<rparr>"

definition busy :: "txn uow" where
  "busy = \<lparr>session = Some 7, world = InProgress, trace = []\<rparr>"

section \<open>Frame lemmas\<close>

text \<open>What each operation leaves alone: the slot, the calls to \<open>endSession\<close>.\<close>

lemmas uow_defs = emit_def logger_def call_def

lemmas lifecycle_defs = executeTransaction_def finally_dispose_def try_catch_def try_block_def
  begin_uow_def execute_def commit_def abort_then_throw_def abort_def dispose_def
  call_def logger_def emit_def

lemmas run_defs = executeTransaction_def finally_dispose_def try_catch_def try_block_def
  begin_uow_def execute_def commit_def abort_then_throw_def abort_def dispose_def
  call_def logger_def emit_def scripted_store_def reliable_store_def returning_def throwing_def
  idle_def busy_def

lemmas loop_defs = resilient_executeTransaction_def try_attempt_def give_up_def back_off_def
  delay_def isRetryableError_def DEFAULT_RETRY_OPTIONS_def transient_def network_down_def
  session_lost_def


lemma logger_simps:
  "session (logger lv m ds s) = session s" "world (logger lv m ds s) = world s"
  "trace (logger lv m ds s) = trace s @ [Log lv m ds]"
  by (simp_all add: logger_def emit_def)

lemma call_simps:
  "session (snd (call ev f s)) = session s"
  "world (snd (call ev f s)) = snd (f (world s))"
  "trace (snd (call ev f s)) = trace s @ [ev]"
  "fst (call ev f s) = fst (f (world s))"
  by (simp_all add: call_def emit_def split: prod.splits)

lemma calls_simps:
  "calls [] = []"
  "calls (ev # tr) = (if is_Log ev then calls tr else ev # calls tr)"
  "calls (tr @ tr') = calls tr @ calls tr'"
  by (simp_all add: calls_def)

lemma unit_errors_simps:
  "unit_errors [] = []"
  "unit_errors (ev # tr) = thrown_by_unit ev @ unit_errors tr"
  "unit_errors (tr @ tr') = unit_errors tr @ unit_errors tr'"
  by (simp_all add: unit_errors_def)

lemma abort_never_fails: "fst (abort st s) = Inr ()"
  by (auto simp add: abort_def split: option.splits prod.splits)

lemma abort_session: "session (snd (abort st s)) = session s"
  by (auto simp add: abort_def uow_defs split: option.splits prod.splits)

lemma abort_ends: "count_list (trace (snd (abort st s))) (EndSession k) = count_list (trace s) (EndSession k)"
  by (auto simp add: abort_def uow_defs split: option.splits prod.splits)

lemma abort_then_throw_fst: "fst (abort_then_throw st e s) = Inl e"
  using abort_never_fails [of st s]
  by (auto simp add: abort_then_throw_def split: prod.splits sum.splits)

lemma abort_then_throw_snd: "snd (abort_then_throw st e s) = snd (abort st s)"
  by (auto simp add: abort_then_throw_def split: prod.splits sum.splits)

lemma execute_session: "session (snd (execute fn s)) = session s"
  by (auto simp add: execute_def uow_defs split: option.splits prod.splits sum.splits)

lemma execute_ends: "count_list (trace (snd (execute fn s))) (EndSession k) = count_list (trace s) (EndSession k)"
  by (auto simp add: execute_def uow_defs split: option.splits prod.splits sum.splits)

lemma commit_session: "session (snd (commit st s)) = session s"
  by (auto simp add: commit_def abort_then_throw_snd abort_session uow_defs split: option.splits prod.splits sum.splits)

lemma commit_ends: "count_list (trace (snd (commit st s))) (EndSession k) = count_list (trace s) (EndSession k)"
  by (auto simp add: commit_def abort_then_throw_snd abort_ends abort_session uow_defs split: option.splits prod.splits sum.splits)

lemma begin_ends: "count_list (trace (snd (begin_uow st s))) (EndSession k) = count_list (trace s) (EndSession k)"
  by (auto simp add: begin_uow_def uow_defs split: option.splits prod.splits sum.splits)

lemma begin_idle:
  "session s = None \<Longrightarrow> startSession st (world s) = (Inr h, w1) \<Longrightarrow>
   session (snd (begin_uow st s)) = Some h"
  by (auto simp add: begin_uow_def uow_defs split: option.splits prod.splits sum.splits)

lemma try_block_ends:
  "count_list (trace (snd (try_block st fn s))) (EndSession k) = count_list (trace s) (EndSession k)"
proof -
  let ?s0 = "logger Debug ''Starting transaction execution'' [] s"
  have 0: "count_list (trace ?s0) (EndSession k) = count_list (trace s) (EndSession k)"
    by (simp add: logger_simps)
  show ?thesis
    using begin_ends [of st ?s0 k] execute_ends [of fn "snd (begin_uow st ?s0)" k]
      commit_ends [of st "snd (execute fn (snd (begin_uow st ?s0)))" k] 0
    by (auto simp add: try_block_def logger_simps split: prod.splits sum.splits)
qed

lemma try_block_session:
  assumes "session s = None" "startSession st (world s) = (Inr h, w1)"
  shows "session (snd (try_block st fn s)) = Some h"
proof -
  let ?s0 = "logger Debug ''Starting transaction execution'' [] s"
  have "session (snd (begin_uow st ?s0)) = Some h"
    using assms by (intro begin_idle [where ?w1.0 = w1]) (simp_all add: logger_simps)
  then show ?thesis
    using execute_session [of fn "snd (begin_uow st ?s0)"]
      commit_session [of st "snd (execute fn (snd (begin_uow st ?s0)))"]
    by (auto simp add: try_block_def logger_simps split: prod.splits sum.splits)
qed

lemma try_catch_session: "session (snd (try_catch st fn s)) = session (snd (try_block st fn s))"
  by (auto simp add: try_catch_def abort_then_throw_snd abort_session logger_simps split: prod.splits sum.splits)

lemma try_catch_ends:
  "count_list (trace (snd (try_catch st fn s))) (EndSession k) = count_list (trace s) (EndSession k)"
  using try_block_ends [of st fn s k]
  by (auto simp add: try_catch_def abort_then_throw_snd abort_ends logger_simps split: prod.splits sum.splits)

lemma dispose_active:
  assumes "session s = Some h"
  shows "count_list (trace (snd (dispose st s))) (EndSession h) =
      count_list (trace s) (EndSession h) + 1"
    and "last (trace (snd (dispose st s))) = EndSession h"
    and "world (snd (dispose st s)) = snd (endSession st h (world s))"
    and "fst (endSession st h (world s)) = None \<Longrightarrow>
      fst (dispose st s) = Inr () \<and> session (snd (dispose st s)) = None"
    and "fst (endSession st h (world s)) = Some e \<Longrightarrow>
      fst (dispose st s) = Inl e \<and> session (snd (dispose st s)) = Some h"
  using assms by (auto simp add: dispose_def uow_defs split: option.splits prod.splits sum.splits)

lemma abort_calls:
  "session s = Some h \<Longrightarrow>
   calls (trace (snd (abort st s))) =
     calls (trace s) @ (if inTransaction st h (world s) then [AbortTransaction h] else [])"
  by (auto simp add: abort_def uow_defs calls_def split: option.splits prod.splits)

lemma dispose_calls:
  "session s = Some h \<Longrightarrow>
   calls (trace (snd (dispose st s))) = calls (trace s) @ [EndSession h]"
  by (auto simp add: dispose_def uow_defs calls_def split: option.splits prod.splits)

lemma try_block_active:
  "session s = Some h \<Longrightarrow>
   try_block st fn s =
     (Inl (new_Error ''A session is already active''),
      logger Warn ''A session is already active'' []
        (logger Debug ''Starting transaction execution'' [] s))"
  by (simp add: try_block_def begin_uow_def logger_simps)

lemma finally_dispose_snd: "snd (executeTransaction st fn s) = snd (dispose st (snd (try_catch st fn s)))"
  by (auto simp add: executeTransaction_def finally_dispose_def split: prod.splits sum.splits)

lemma finally_dispose_fst:
  "fst (dispose st (snd (try_catch st fn s))) = Inl e \<Longrightarrow>
     fst (executeTransaction st fn s) = Inl e"
  "fst (dispose st (snd (try_catch st fn s))) = Inr u \<Longrightarrow>
     fst (executeTransaction st fn s) = fst (try_catch st fn s)"
  by (auto simp add: executeTransaction_def finally_dispose_def split: prod.splits sum.splits)

text \<open>A round of the lifecycle in which the transaction function throws.\<close>

lemma failed_round:
  assumes "session s = None"
    and "startSession st (world s) = (Inr h, w1)"
    and "startTransaction st h w1 = (None, w2)"
    and "fn h w2 = (Inl e, w3)"
    and "fst (endSession st h
          (if inTransaction st h w3 then snd (abortTransaction st h w3) else w3)) = None"
  shows "fst (executeTransaction st fn s) = Inl e \<and>
    session (snd (executeTransaction st fn s)) = None \<and>
    calls (trace (snd (executeTransaction st fn s))) =
      calls (trace s) @ failed_lifecycle h (inTransaction st h w3) \<and>
    unit_errors (trace (snd (executeTransaction st fn s))) = unit_errors (trace s) @ [e]"
proof (cases "inTransaction st h w3")
  case True
  with assms show ?thesis
    by (auto simp add: lifecycle_defs calls_simps unit_errors_simps failed_lifecycle_def
        split: prod.splits option.splits sum.splits)
next
  case False
  with assms show ?thesis
    by (auto simp add: lifecycle_defs calls_simps unit_errors_simps failed_lifecycle_def
        split: prod.splits option.splits sum.splits)
qed

lemma try_attempt_failed_round:
  assumes "session s = None"
    and "startSession st (world s) = (Inr h, w1)"
    and "startTransaction st h w1 = (None, w2)"
    and "fn h w2 = (Inl e, w3)"
    and "fst (endSession st h
          (if inTransaction st h w3 then snd (abortTransaction st h w3) else w3)) = None"
  shows "fst (try_attempt opts st fn a s) = Inl e \<and>
    session (snd (try_attempt opts st fn a s)) = None \<and>
    calls (trace (snd (try_attempt opts st fn a s))) =
      calls (trace s) @ failed_lifecycle h (inTransaction st h w3) \<and>
    unit_errors (trace (snd (try_attempt opts st fn a s))) = unit_errors (trace s) @ [e]"
proof -
  let ?s = "if a > 0
       then logger Info ''Retry attempt ${attempt} of ${maxRetries}''
              [DCount (int a), DCount (maxRetries opts)] s
       else s"
  have s: "session ?s = None" "world ?s = world s" "calls (trace ?s) = calls (trace s)"
    "unit_errors (trace ?s) = unit_errors (trace s)"
    using assms(1) by (simp_all add: logger_simps calls_simps unit_errors_simps)
  from failed_round [of ?s st h w1 w2 fn e w3] assms(2-5) s
  show ?thesis
    by (simp add: try_attempt_def)
qed

lemma give_up_frame:
  "session (give_up opts a e s) = session s"
  "calls (trace (give_up opts a e s)) = calls (trace s)"
  "unit_errors (trace (give_up opts a e s)) = unit_errors (trace s)"
  by (simp_all add: give_up_def logger_simps calls_simps unit_errors_simps)


text \<open>One round of the loop that fails: it gives up, or it waits and goes on.\<close>

lemma retry_loop_give_up:
  assumes "int a \<le> maxRetries opts" "try_attempt opts st fn a s = (Inl e, s1)"
    "int a = maxRetries opts \<or> \<not> isRetryableError opts e"
  shows "retry_loop ar opts st fn a lastError s = (Inl (Raised e), give_up opts a e s1)"
  using assms by (subst retry_loop.simps) auto



text \<open>\<open>includes_str\<close> finds exactly the substrings.\<close>

lemma startsWith_iff: "startsWith cs ts \<longleftrightarrow> (\<exists>q. cs = ts @ q)"
  by (induction cs ts rule: startsWith.induct) auto

lemma includes_str_iff: "includes_str m t \<longleftrightarrow> (\<exists>p q. m = p @ t @ q)"
proof (induction m)
  case Nil
  then show ?case by (simp add: startsWith_iff)
next
  case (Cons c cs)
  show ?case
  proof
    assume "includes_str (c # cs) t"
    then consider "startsWith (c # cs) t" | "includes_str cs t" by auto
    then show "\<exists>p q. c # cs = p @ t @ q"
    proof cases
      case 1
      then obtain q where "c # cs = t @ q" by (auto simp add: startsWith_iff)
      then have "c # cs = [] @ t @ q" by simp
      then show ?thesis by blast
    next
      case 2
      then obtain p q where "cs = p @ t @ q" using Cons.IH by auto
      then have "c # cs = (c # p) @ t @ q" by simp
      then show ?thesis by blast
    qed
  next
    assume "\<exists>p q. c # cs = p @ t @ q"
    then obtain p q where pq: "c # cs = p @ t @ q" by blast
    show "includes_str (c # cs) t"
    proof (cases p)
      case Nil
      with pq have "startsWith (c # cs) t" by (auto simp add: startsWith_iff)
      then show ?thesis by simp
    next
      case (Cons a p')
      with pq have "cs = p' @ t @ q" by simp
      then have "includes_str cs t" using Cons.IH by blast
      then show ?thesis by simp
    qed
  qed
qed

text \<open>Products that need no rounding, and the capped schedule of the defaults.\<close>

lemma val_power_int: "val sg m e = (if sg then - 1 else 1) * real m * 2 powi e"
  by (simp add: val_def power_int_def inverse_eq_divide power_one_over)

lemma val_times: "val s m e * val t n f = val (s \<noteq> t) (m * n) (e + f)"
  by (simp add: val_power_int power_int_add)

lemma round_exact:
  "bit_length m \<le> 53 \<Longrightarrow> - 1074 \<le> e \<Longrightarrow> int (bit_length m) + e \<le> 1024 \<Longrightarrow>
   round_to_double sg m e = Finite sg m e"
  by (simp add: round_to_double_def overflow_check_def Let_def)

lemma round_overflow:
  "bit_length m \<le> 53 \<Longrightarrow> - 1074 \<le> e \<Longrightarrow> int (bit_length m) + e > 1024 \<Longrightarrow>
   round_to_double sg m e = Infinity sg"
  by (simp add: round_to_double_def overflow_check_def Let_def)

lemma ecma_min_finite:
  "value_of (ecma_min (Finite s m e) (Finite t n f)) = Some (min (val s m e) (val t n f))"
  by (auto simp add: val_def min_def)

lemma bit_length_1: "bit_length 1 = 1" "bit_length (Suc 0) = 1"
  by (simp_all add: bit_length.simps)

lemma bit_length_25: "bit_length 25 = 5"
  by (simp add: bit_length.simps)

lemma pow_two:
  "round_to_double False (Suc 0) (int k) =
     (if k < 1024 then Finite False (Suc 0) (int k) else Infinity False)"
  by (simp add: round_exact round_overflow bit_length_1)

lemma hundred_times:
  "round_to_double False 25 (2 + int k) =
     (if k < 1018 then Finite False 25 (2 + int k) else Infinity False)"
  by (simp add: round_exact round_overflow bit_length_25)

lemma capped_schedule:
  "value_of (ecma_min (Finite False 25 (2 + int k)) (Finite False 125 3)) =
     Some (if k < 4 then 100 * 2 ^ k else 1000)"
proof -
  have v: "val False 25 (2 + int k) = 100 * 2 ^ k"
    by (simp add: val_def nat_add_distrib)
  have w: "val False 125 3 = 1000"
    by (simp add: val_def)
  show ?thesis
  proof (cases "k < 4")
    case True
    then have "k = 0 \<or> k = 1 \<or> k = 2 \<or> k = 3" by auto
    then show ?thesis
      unfolding ecma_min_finite v w by auto
  next
    case False
    then have "(2::real) ^ 4 \<le> 2 ^ k"
      by (intro power_increasing) simp_all
    then have "(1000::real) \<le> 100 * 2 ^ k" by simp
    with False show ?thesis
      unfolding ecma_min_finite v w by simp
  qed
qed

lemma exact_pow_two: "exact_pow (Finite False 1 1) k = round_to_double False 1 (int k)"
  by (simp add: exact_pow_def round_exact bit_length_1)

section \<open>Cleanup at the end of executeTransaction\<close>

text \<open>
  When \<open>endSession\<close> fails, \<open>dispose\<close> does not reach \<open>this.session = null\<close>: the
  transaction function returned a result, yet the slot still holds the session.
\<close>

theorem cleanup_slot_counterexample:
  "session idle = None \<and>
   fst (executeTransaction (scripted_store None False None (Some session_lost))
          (returning (42::nat)) idle) = Inl session_lost \<and>
   session (snd (executeTransaction (scripted_store None False None (Some session_lost))
          (returning (42::nat)) idle)) = Some 7"
  by (simp add: run_defs)

text \<open>
  C1 (as amended): started with no active session, whenever \<open>startSession\<close> hands out a
  session \<open>h\<close>, \<open>UnitOfWork.executeTransaction\<close> calls \<open>endSession\<close> on \<open>h\<close> exactly once,
  as its last call, in the state of the store that the \<open>try\<close> and \<open>catch\<close> clauses leave,
  whatever the transaction function, the commit and the abort do. If that call returns,
  the slot is cleared and the outcome is the one of the \<open>try\<close> and \<open>catch\<close> clauses; if it
  fails, its error is what \<open>executeTransaction\<close> raises and the slot still holds \<open>h\<close>.
\<close>

theorem executeTransaction_cleanup:
  assumes "session s = None" and "startSession st (world s) = (Inr h, w1)"
  shows "count_list (trace (snd (executeTransaction st fn s))) (EndSession h) =
           count_list (trace s) (EndSession h) + 1 \<and>
         last (trace (snd (executeTransaction st fn s))) = EndSession h \<and>
         world (snd (executeTransaction st fn s)) =
           snd (endSession st h (world (snd (try_catch st fn s)))) \<and>
         (fst (endSession st h (world (snd (try_catch st fn s)))) = None \<longrightarrow>
            session (snd (executeTransaction st fn s)) = None \<and>
            fst (executeTransaction st fn s) = fst (try_catch st fn s)) \<and>
         (\<forall>e. fst (endSession st h (world (snd (try_catch st fn s)))) = Some e \<longrightarrow>
            session (snd (executeTransaction st fn s)) = Some h \<and>
            fst (executeTransaction st fn s) = Inl e)"
proof -
  let ?m = "snd (try_catch st fn s)"
  have act: "session ?m = Some h"
    using assms by (simp add: try_catch_session try_block_session)
  note d = dispose_active [OF act, of st]
  have 1: "count_list (trace (snd (executeTransaction st fn s))) (EndSession h) =
           count_list (trace s) (EndSession h) + 1"
    by (simp add: finally_dispose_snd d(1) try_catch_ends)
  have 2: "last (trace (snd (executeTransaction st fn s))) = EndSession h"
    by (simp add: finally_dispose_snd d(2))
  have 3: "world (snd (executeTransaction st fn s)) = snd (endSession st h (world ?m))"
    by (simp add: finally_dispose_snd d(3))
  have 4: "fst (endSession st h (world ?m)) = None \<longrightarrow>
            session (snd (executeTransaction st fn s)) = None \<and>
            fst (executeTransaction st fn s) = fst (try_catch st fn s)"
    using d(4) finally_dispose_fst(2) [of st fn s "()"] by (simp add: finally_dispose_snd)
  have 5: "\<forall>e. fst (endSession st h (world ?m)) = Some e \<longrightarrow>
            session (snd (executeTransaction st fn s)) = Some h \<and>
            fst (executeTransaction st fn s) = Inl e"
    using d(5) finally_dispose_fst(1) [of st fn s] by (simp add: finally_dispose_snd)
  from 1 2 3 4 5 show ?thesis by blast
qed

theorem executeTransaction_cleanup_witness:
  "session idle = None \<and> startSession reliable_store (world idle) = (Inr 7, NoTransaction) \<and>
   count_list (trace (snd (executeTransaction reliable_store (returning (42::nat)) idle)))
     (EndSession 7) = 1 \<and>
   session (snd (executeTransaction reliable_store (returning (42::nat)) idle)) = None \<and>
   session (snd (executeTransaction (scripted_store None False None (Some session_lost))
     (returning (42::nat)) idle)) = Some 7 \<and>
   fst (executeTransaction (scripted_store None False None (Some session_lost))
     (returning (42::nat)) idle) = Inl session_lost"
  using executeTransaction_cleanup [of idle reliable_store 7 NoTransaction "returning (42::nat)"]
    executeTransaction_cleanup [of idle "scripted_store None False None (Some session_lost)" 7
      NoTransaction "returning (42::nat)"]
  by (simp add: idle_def reliable_store_def scripted_store_def)

section \<open>The retry bound\<close>




section \<open>Commit and its automatic abort\<close>

text \<open>
  A store whose session no longer reports a transaction after a failed commit: \<open>abort\<close>
  returns at its guard and \<open>abortTransaction\<close> is never called.
\<close>

theorem commit_auto_abort_counterexample:
  "session busy = Some 7 \<and>
   inTransaction (scripted_store (Some write_conflict) False None None) 7 (world busy) \<and>
   fst (commitTransaction (scripted_store (Some write_conflict) False None None) 7 (world busy))
     = Some write_conflict \<and>
   fst (commit (scripted_store (Some write_conflict) False None None) busy) = Inl write_conflict \<and>
   count_list (trace (snd (commit (scripted_store (Some write_conflict) False None None) busy)))
     (AbortTransaction 7) = 0"
  by (simp add: run_defs)

text \<open>
  C3 (as amended): with an active session whose transaction is active, a failing
  \<open>commitTransaction\<close> makes \<open>commit\<close> raise that same error, after calling
  \<open>abortTransaction\<close> exactly once if the session still reports an active transaction after
  the failed commit, and not at all otherwise (\<open>abort\<close> asks \<open>inTransaction\<close> again).
  Without an active session, or with a transaction that is not active, \<open>commit\<close> returns
  and changes nothing.
\<close>

theorem commit_failure_auto_abort:
  "(\<forall>h e w'. session s = Some h \<and> inTransaction st h (world s) \<and>
        commitTransaction st h (world s) = (Some e, w') \<longrightarrow>
      fst (commit st s) = Inl e \<and>
      calls (trace (snd (commit st s))) =
        calls (trace s) @ [CommitTransaction h] @
          (if inTransaction st h w' then [AbortTransaction h] else [])) \<and>
   (session s = None \<or> (\<exists>h. session s = Some h \<and> \<not> inTransaction st h (world s)) \<longrightarrow>
      commit st s = (Inr (), s))"
  by (auto simp add: commit_def abort_then_throw_def abort_def uow_defs calls_def
      split: option.splits prod.splits sum.splits)

theorem commit_failure_auto_abort_witness:
  "fst (commit (scripted_store (Some write_conflict) True None None) busy) = Inl write_conflict \<and>
   calls (trace (snd (commit (scripted_store (Some write_conflict) True None None) busy))) =
     [CommitTransaction 7, AbortTransaction 7] \<and>
   calls (trace (snd (commit (scripted_store (Some write_conflict) False None None) busy))) =
     [CommitTransaction 7] \<and>
   commit reliable_store idle = (Inr (), idle)"
  using commit_failure_auto_abort [of busy "scripted_store (Some write_conflict) True None None"]
    commit_failure_auto_abort [of busy "scripted_store (Some write_conflict) False None None"]
    commit_failure_auto_abort [of idle reliable_store]
  by (simp add: busy_def idle_def scripted_store_def calls_def)

section \<open>Which errors are retried\<close>

text \<open>
  C4: an error is retryable exactly when a list of identifiers is configured and one of them
  equals the error's name or occurs in the error's message; with no list, or an empty one,
  no error is retryable.
\<close>

theorem isRetryableError_iff:
  "(isRetryableError opts err \<longleftrightarrow>
     (\<exists>errorTypes. retryableErrors opts = Some errorTypes \<and>
        (\<exists>t \<in> set errorTypes.
           name err = t \<or> (\<exists>m p q. message err = Some m \<and> m = p @ t @ q)))) \<and>
   (retryableErrors opts = None \<or> retryableErrors opts = Some [] \<longrightarrow>
      \<not> isRetryableError opts err)"
proof (cases "retryableErrors opts")
  case None
  then show ?thesis by (simp add: isRetryableError_def)
next
  case (Some errorTypes)
  have "isRetryableError opts err \<longleftrightarrow>
      (\<exists>t \<in> set errorTypes. name err = t \<or> (\<exists>m. message err = Some m \<and> includes_str m t))"
    using Some by (auto simp add: isRetryableError_def list_ex_iff split: option.splits)
  also have "\<dots> \<longleftrightarrow>
      (\<exists>t \<in> set errorTypes. name err = t \<or> (\<exists>m p q. message err = Some m \<and> m = p @ t @ q))"
    by (simp add: includes_str_iff)
  finally show ?thesis using Some by auto
qed

theorem isRetryableError_iff_witness:
  "isRetryableError DEFAULT_RETRY_OPTIONS
     \<lparr>name = ''MongoServerError'',
      message = Some ''Caused by :: TransientTransactionError :: retry''\<rparr> \<and>
   \<not> isRetryableError (DEFAULT_RETRY_OPTIONS\<lparr>retryableErrors := Some []\<rparr>) transient \<and>
   \<not> isRetryableError (DEFAULT_RETRY_OPTIONS\<lparr>retryableErrors := None\<rparr>) transient"
proof -
  let ?e = "\<lparr>name = ''MongoServerError'',
      message = Some ''Caused by :: TransientTransactionError :: retry''\<rparr>"
  have "''Caused by :: TransientTransactionError :: retry'' =
      ''Caused by :: '' @ ''TransientTransactionError'' @ '' :: retry''"
    by simp
  then have "\<exists>m p q. message ?e = Some m \<and> m = p @ ''TransientTransactionError'' @ q"
    by (metis error.select_convs(2))
  then have "isRetryableError DEFAULT_RETRY_OPTIONS ?e"
    using isRetryableError_iff [of DEFAULT_RETRY_OPTIONS ?e]
    by (simp add: DEFAULT_RETRY_OPTIONS_def)
  moreover have "\<not> isRetryableError (DEFAULT_RETRY_OPTIONS\<lparr>retryableErrors := Some []\<rparr>) transient"
    using isRetryableError_iff [of "DEFAULT_RETRY_OPTIONS\<lparr>retryableErrors := Some []\<rparr>" transient]
    by simp
  moreover have "\<not> isRetryableError (DEFAULT_RETRY_OPTIONS\<lparr>retryableErrors := None\<rparr>) transient"
    using isRetryableError_iff [of "DEFAULT_RETRY_OPTIONS\<lparr>retryableErrors := None\<rparr>" transient]
    by simp
  ultimately show ?thesis by blast
qed

section \<open>The backoff delay\<close>

text \<open>
  The product is rounded to a double: the double nearest to 0.1, times 3, is not the exact
  product of the two, so the delay for index 1 is not the minimum of the exact product and
  the cap.
\<close>

theorem backoff_rounding_counterexample:
  "value_of (initialDelayMs tenth_tripled) = Some (3602879701896397 / 2 ^ 55) \<and>
   value_of (backoffFactor tenth_tripled) = Some 3 \<and>
   value_of (maxDelayMs tenth_tripled) = Some 1000 \<and>
   value_of (calculateBackoffDelay (ieee exact_pow) tenth_tripled 1) =
     Some (5404319552844596 / 2 ^ 54) \<and>
   min (3602879701896397 / 2 ^ 55 * 3 ^ 1) 1000 \<noteq> (5404319552844596 / 2 ^ 54 :: real)"
proof -
  have b3: "bit_length 3 = 2" by (simp add: bit_length.simps)
  have p: "exact_pow (Finite False 3 0) (Suc 0) = Finite False 3 0"
    by (simp add: exact_pow_def round_exact b3)
  have bl: "bit_length 10808639105689191 = 54" by (simp add: bit_length.simps)
  have t: "round_to_double False 10808639105689191 (- 55) =
      Finite False 5404319552844596 (- 54)"
    by (simp add: round_to_double_def overflow_check_def Let_def bl bit_length.simps)
  have 4: "value_of (calculateBackoffDelay (ieee exact_pow) tenth_tripled 1) =
     Some (5404319552844596 / 2 ^ 54)"
    by (simp add: calculateBackoffDelay_def ieee_def tenth_tripled_def p t val_def)
  have 5: "min (3602879701896397 / 2 ^ 55 * 3 ^ 1) 1000 \<noteq> (5404319552844596 / 2 ^ 54 :: real)"
    by simp
  show ?thesis
    using 4 5 by (simp add: tenth_tripled_def val_def)
qed

text \<open>
  C5 (as amended): the delay for index \<open>n\<close> is \<open>Math.min\<close> of \<open>initialDelayMs\<close> times
  \<open>Math.pow(backoffFactor, n)\<close> and \<open>maxDelayMs\<close> in the arithmetic of the runtime, a function
  of the runtime, the options and the index alone. In double precision it is the minimum of
  \<open>initialDelayMs\<close> times \<open>backoffFactor\<close> to the power \<open>n\<close> and \<open>maxDelayMs\<close> whenever
  \<open>Math.pow\<close> returns that power exactly and the product needs no rounding: the product
  of the two significands fits in 53 bits, within the range of exponents. With 100, 2 and
  1000, and a \<open>Math.pow\<close> that gives the powers of 2 exactly
  (infinity from 2 to the 1024 on), the delays are 100, 200, 400, 800 and then 1000 for every
  index from 4 on.
\<close>

theorem backoff_delay:
  "calculateBackoffDelay ar opts n =
     js_min ar (js_times ar (initialDelayMs opts) (js_pow ar (backoffFactor opts) n))
       (maxDelayMs opts) \<and>
   (\<forall>s m e b c d t p f u q g.
      initialDelayMs opts = Finite s m e \<and> backoffFactor opts = Finite b c d \<and>
      maxDelayMs opts = Finite u q g \<and>
      pw (Finite b c d) n = Finite t p f \<and> val t p f = val b c d ^ n \<and>
      bit_length (m * p) \<le> 53 \<and> - 1074 \<le> e + f \<and> int (bit_length (m * p)) + (e + f) \<le> 1024
      \<longrightarrow>
      value_of (calculateBackoffDelay (ieee pw) opts n) =
        Some (min (val s m e * val b c d ^ n) (val u q g))) \<and>
   (initialDelayMs opts = Finite False 25 2 \<and> backoffFactor opts = Finite False 1 1 \<and>
    maxDelayMs opts = Finite False 125 3 \<and>
    (\<forall>k. pw (Finite False 1 1) k = round_to_double False 1 (int k)) \<longrightarrow>
      (\<forall>k. value_of (calculateBackoffDelay (ieee pw) opts k) =
         Some (if k < 4 then 100 * 2 ^ k else 1000)))"
proof (intro conjI allI impI)
  show "calculateBackoffDelay ar opts n =
     js_min ar (js_times ar (initialDelayMs opts) (js_pow ar (backoffFactor opts) n))
       (maxDelayMs opts)"
    by (simp add: calculateBackoffDelay_def)
next
  fix s m e b c d t p f u q g
  assume a: "initialDelayMs opts = Finite s m e \<and> backoffFactor opts = Finite b c d \<and>
      maxDelayMs opts = Finite u q g \<and>
      pw (Finite b c d) n = Finite t p f \<and> val t p f = val b c d ^ n \<and>
      bit_length (m * p) \<le> 53 \<and> - 1074 \<le> e + f \<and> int (bit_length (m * p)) + (e + f) \<le> 1024"
  then have "calculateBackoffDelay (ieee pw) opts n =
      ecma_min (Finite (s \<noteq> t) (m * p) (e + f)) (Finite u q g)"
    by (simp add: calculateBackoffDelay_def ieee_def round_exact)
  then have "value_of (calculateBackoffDelay (ieee pw) opts n) =
        Some (min (val s m e * val t p f) (val u q g))"
    by (simp only: ecma_min_finite val_times)
  with a show "value_of (calculateBackoffDelay (ieee pw) opts n) =
        Some (min (val s m e * val b c d ^ n) (val u q g))"
    by simp
next
  fix k
  assume a: "initialDelayMs opts = Finite False 25 2 \<and> backoffFactor opts = Finite False 1 1 \<and>
    maxDelayMs opts = Finite False 125 3 \<and>
    (\<forall>k. pw (Finite False 1 1) k = round_to_double False 1 (int k))"
  then have d: "calculateBackoffDelay (ieee pw) opts k =
      ecma_min (ieee_times (Finite False 25 2) (round_to_double False (Suc 0) (int k)))
        (Finite False 125 3)"
    by (simp add: calculateBackoffDelay_def ieee_def)
  show "value_of (calculateBackoffDelay (ieee pw) opts k) =
         Some (if k < 4 then 100 * 2 ^ k else 1000)"
  proof (cases "k < 1018")
    case True
    then have "ieee_times (Finite False 25 2) (round_to_double False (Suc 0) (int k)) =
        Finite False 25 (2 + int k)"
      by (simp add: pow_two hundred_times)
    then show ?thesis
      unfolding d by (simp only: capped_schedule)
  next
    case False
    have "ieee_times (Finite False 25 2) (round_to_double False (Suc 0) (int k)) = Infinity False"
      using False by (simp add: pow_two hundred_times)
    then show ?thesis
      unfolding d using False by (simp add: val_def)
  qed
qed

theorem backoff_delay_witness:
  "map (\<lambda>k. value_of (calculateBackoffDelay (ieee exact_pow) DEFAULT_RETRY_OPTIONS k))
     [0, 1, 2, 3, 4, 5, 2000] =
     [Some 100, Some 200, Some 400, Some 800, Some 1000, Some 1000, Some 1000] \<and>
   value_of (calculateBackoffDelay (ieee exact_pow) tenth_tripled 0) =
     Some (min (3602879701896397 / 2 ^ 55) 1000)"
proof -
  have b: "bit_length (3602879701896397 * 1) \<le> 53"
    by (simp add: bit_length.simps)
  have "value_of (calculateBackoffDelay (ieee exact_pow) tenth_tripled 0) =
     Some (min (val False 3602879701896397 (- 55) * val False 3 0 ^ 0) (val False 125 3))"
    using backoff_delay [of "ieee exact_pow" tenth_tripled 0 exact_pow, THEN conjunct2,
        THEN conjunct1, rule_format,
        of False 3602879701896397 "- 55" False 3 0 False 125 3 False 1 0] b
    by (simp add: tenth_tripled_def exact_pow_def val_def)
  then have 1: "value_of (calculateBackoffDelay (ieee exact_pow) tenth_tripled 0) =
     Some (min (3602879701896397 / 2 ^ 55) 1000)"
    by (simp add: val_def)
  have "\<forall>k. value_of (calculateBackoffDelay (ieee exact_pow) DEFAULT_RETRY_OPTIONS k) =
         Some (if k < 4 then 100 * 2 ^ k else 1000)"
    using backoff_delay [of "ieee exact_pow" DEFAULT_RETRY_OPTIONS 0 exact_pow] exact_pow_two
    by (simp add: DEFAULT_RETRY_OPTIONS_def)
  then have 2: "map (\<lambda>k. value_of (calculateBackoffDelay (ieee exact_pow) DEFAULT_RETRY_OPTIONS k))
     [0, 1, 2, 3, 4, 5, 2000] =
     [Some 100, Some 200, Some 400, Some 800, Some 1000, Some 1000, Some 1000]"
    by simp
  from 1 2 show ?thesis by blast
qed

section \<open>An error that is not retryable ends the loop\<close>

text \<open>
  With a negative \<open>maxRetries\<close> no round runs and \<open>undefined\<close> is thrown. And when the
  transaction function throws an error that is not retryable but \<open>endSession\<close> fails with a
  retryable one, the loop runs all four rounds and raises the error of \<open>endSession\<close>.
\<close>

theorem short_circuit_counterexample:
  "fst (throwing network_down 7 InProgress) = Inl network_down \<and>
   \<not> isRetryableError DEFAULT_RETRY_OPTIONS network_down \<and>
   resilient_executeTransaction (ieee exact_pow) (DEFAULT_RETRY_OPTIONS\<lparr>maxRetries := - 1\<rparr>)
     reliable_store (throwing network_down) idle = (Inl Undefined, idle) \<and>
   fst (resilient_executeTransaction (ieee exact_pow) DEFAULT_RETRY_OPTIONS
          (scripted_store None False None (Some transient)) (throwing network_down) idle) =
     Inl (Raised transient) \<and>
   count_list (trace (snd (resilient_executeTransaction (ieee exact_pow) DEFAULT_RETRY_OPTIONS
          (scripted_store None False None (Some transient)) (throwing network_down) idle)))
     (EndSession 7) = 4 \<and>
   count_list (trace (snd (resilient_executeTransaction (ieee exact_pow) DEFAULT_RETRY_OPTIONS
          (scripted_store None False None (Some transient)) (throwing network_down) idle)))
     (Invoke 7) = 1"
  by (simp add: retry_loop.simps loop_defs run_defs Let_def)

text \<open>
  C6 (as amended): for every \<open>maxRetries\<close> that is not negative, started with no active
  session, when round 0 starts a session and a transaction, the transaction function fails
  with an error that is not retryable, and \<open>endSession\<close> does not fail,
  \<open>ResilientUnitOfWork.executeTransaction\<close> raises that error itself after this single round
  of the lifecycle, without any delay or further call. With a negative \<open>maxRetries\<close> it runs
  no round and throws \<open>undefined\<close>.
\<close>

theorem non_retryable_short_circuit:
  "(maxRetries opts < 0 \<longrightarrow>
      resilient_executeTransaction ar opts st fn s = (Inl Undefined, s)) \<and>
   (\<forall>h w1 w2 w3 e.
      0 \<le> maxRetries opts \<and> session s = None \<and>
      startSession st (world s) = (Inr h, w1) \<and>
      startTransaction st h w1 = (None, w2) \<and>
      fn h w2 = (Inl e, w3) \<and> \<not> isRetryableError opts e \<and>
      fst (endSession st h
            (if inTransaction st h w3 then snd (abortTransaction st h w3) else w3)) = None
      \<longrightarrow>
      fst (resilient_executeTransaction ar opts st fn s) = Inl (Raised e) \<and>
      session (snd (resilient_executeTransaction ar opts st fn s)) = None \<and>
      calls (trace (snd (resilient_executeTransaction ar opts st fn s))) =
        calls (trace s) @ failed_lifecycle h (inTransaction st h w3))"
proof (intro conjI allI impI)
  assume "maxRetries opts < 0"
  then show "resilient_executeTransaction ar opts st fn s = (Inl Undefined, s)"
    unfolding resilient_executeTransaction_def by (subst retry_loop.simps) simp
next
  fix h w1 w2 w3 e
  assume a: "0 \<le> maxRetries opts \<and> session s = None \<and>
      startSession st (world s) = (Inr h, w1) \<and>
      startTransaction st h w1 = (None, w2) \<and>
      fn h w2 = (Inl e, w3) \<and> \<not> isRetryableError opts e \<and>
      fst (endSession st h
            (if inTransaction st h w3 then snd (abortTransaction st h w3) else w3)) = None"
  let ?s1 = "snd (try_attempt opts st fn 0 s)"
  have r: "fst (try_attempt opts st fn 0 s) = Inl e \<and>
    session ?s1 = None \<and>
    calls (trace ?s1) = calls (trace s) @ failed_lifecycle h (inTransaction st h w3) \<and>
    unit_errors (trace ?s1) = unit_errors (trace s) @ [e]"
    using a by (intro try_attempt_failed_round [where ?w1.0 = w1 and ?w2.0 = w2]) simp_all
  then have t: "try_attempt opts st fn 0 s = (Inl e, ?s1)"
    by (simp add: prod_eq_iff)
  have "retry_loop ar opts st fn 0 None s = (Inl (Raised e), give_up opts 0 e ?s1)"
    using a t by (intro retry_loop_give_up) simp_all
  then have res: "resilient_executeTransaction ar opts st fn s =
      (Inl (Raised e), give_up opts 0 e ?s1)"
    by (simp add: resilient_executeTransaction_def)
  show "fst (resilient_executeTransaction ar opts st fn s) = Inl (Raised e)"
    by (simp add: res)
  show "session (snd (resilient_executeTransaction ar opts st fn s)) = None"
    using r by (simp add: res give_up_frame)
  show "calls (trace (snd (resilient_executeTransaction ar opts st fn s))) =
        calls (trace s) @ failed_lifecycle h (inTransaction st h w3)"
    using r by (simp add: res give_up_frame)
qed

theorem non_retryable_short_circuit_witness:
  "\<not> isRetryableError DEFAULT_RETRY_OPTIONS network_down \<and>
   fst (resilient_executeTransaction (ieee exact_pow) DEFAULT_RETRY_OPTIONS reliable_store
          (throwing network_down) idle) = Inl (Raised network_down) \<and>
   session (snd (resilient_executeTransaction (ieee exact_pow) DEFAULT_RETRY_OPTIONS
          reliable_store (throwing network_down) idle)) = None \<and>
   calls (trace (snd (resilient_executeTransaction (ieee exact_pow) DEFAULT_RETRY_OPTIONS
          reliable_store (throwing network_down) idle))) =
     [StartSession, StartTransaction 7, Invoke 7, AbortTransaction 7, EndSession 7] \<and>
   resilient_executeTransaction (ieee exact_pow) (DEFAULT_RETRY_OPTIONS\<lparr>maxRetries := - 1\<rparr>)
     reliable_store (throwing network_down) idle = (Inl Undefined, idle)"
proof -
  have n: "\<not> isRetryableError DEFAULT_RETRY_OPTIONS network_down"
    by (simp add: isRetryableError_def DEFAULT_RETRY_OPTIONS_def network_down_def)
  have p: "0 \<le> maxRetries DEFAULT_RETRY_OPTIONS \<and> session idle = None \<and>
      startSession reliable_store (world idle) = (Inr 7, NoTransaction) \<and>
      startTransaction reliable_store 7 NoTransaction = (None, InProgress) \<and>
      throwing network_down 7 InProgress = (Inl network_down, InProgress) \<and>
      \<not> isRetryableError DEFAULT_RETRY_OPTIONS network_down \<and>
      fst (endSession reliable_store 7
            (if inTransaction reliable_store 7 InProgress
             then snd (abortTransaction reliable_store 7 InProgress) else InProgress)) = None"
    using n by (simp add: DEFAULT_RETRY_OPTIONS_def idle_def reliable_store_def
        scripted_store_def throwing_def)
  have i: "inTransaction reliable_store 7 InProgress"
    by (simp add: reliable_store_def scripted_store_def)
  have c: "calls (trace idle) = []"
    by (simp add: idle_def calls_simps)
  have neg: "maxRetries (DEFAULT_RETRY_OPTIONS\<lparr>maxRetries := - 1\<rparr>) < 0"
    by simp
  from non_retryable_short_circuit [of DEFAULT_RETRY_OPTIONS "ieee exact_pow" reliable_store
      "throwing network_down" idle, THEN conjunct2, rule_format, OF p]
    non_retryable_short_circuit [of "DEFAULT_RETRY_OPTIONS\<lparr>maxRetries := - 1\<rparr>"
      "ieee exact_pow" reliable_store "throwing network_down" idle, THEN conjunct1, rule_format,
      OF neg] n i c
  show ?thesis
    by (simp add: failed_lifecycle_def)
qed

section \<open>abort swallows its own failure\<close>

text \<open>
  The transaction function throws, the abort fails and \<open>endSession\<close> fails too: the caller
  gets the error of \<open>endSession\<close>, not the one that started it all.
\<close>

theorem abort_masked_by_dispose_counterexample:
  "fst (try_block (scripted_store None False (Some network_down) (Some session_lost))
          (throwing transient) idle) = Inl transient \<and>
   AbortTransaction 7 \<in> set (trace (snd (executeTransaction
          (scripted_store None False (Some network_down) (Some session_lost))
          (throwing transient) idle))) \<and>
   fst (executeTransaction (scripted_store None False (Some network_down) (Some session_lost))
          (throwing transient) idle) = Inl session_lost \<and>
   session_lost \<noteq> transient"
  by (simp add: run_defs session_lost_def transient_def)

text \<open>
  C7 (as amended): \<open>abort\<close> never raises. When \<open>abortTransaction\<close> fails, the failure is
  logged at level error and \<open>abort\<close> returns. When the \<open>try\<close> block of
  \<open>executeTransaction\<close> fails with an error, that error is what leaves the \<open>catch\<close>
  clause, whatever the abort did. It is what \<open>executeTransaction\<close> raises when the slot is
  empty or \<open>endSession\<close>, called by \<open>dispose\<close> in the \<open>finally\<close> clause, returns; when
  \<open>endSession\<close> fails, its error is raised instead.
\<close>

theorem abort_never_masks:
  "fst (abort st s) = Inr () \<and>
   (\<forall>h e w'. session s = Some h \<and> inTransaction st h (world s) \<and>
        abortTransaction st h (world s) = (Some e, w') \<longrightarrow>
      abort st s =
        (Inr (), s\<lparr>world := w', trace := trace s @
           [Log Debug ''Aborting transaction'' [], AbortTransaction h,
            Log Error ''Error aborting transaction'' [DError e]]\<rparr>)) \<and>
   (\<forall>e s1. try_block st fn s = (Inl e, s1) \<longrightarrow>
      fst (try_catch st fn s) = Inl e \<and>
      (case session (snd (try_catch st fn s)) of
         None \<Rightarrow> fst (executeTransaction st fn s) = Inl e
       | Some h \<Rightarrow>
           (case fst (endSession st h (world (snd (try_catch st fn s)))) of
              None \<Rightarrow> fst (executeTransaction st fn s) = Inl e
            | Some e' \<Rightarrow> fst (executeTransaction st fn s) = Inl e')))"
proof (intro conjI allI impI)
  show "fst (abort st s) = Inr ()"
    by (rule abort_never_fails)
next
  fix h e w'
  assume "session s = Some h \<and> inTransaction st h (world s) \<and>
        abortTransaction st h (world s) = (Some e, w')"
  then show "abort st s =
        (Inr (), s\<lparr>world := w', trace := trace s @
           [Log Debug ''Aborting transaction'' [], AbortTransaction h,
            Log Error ''Error aborting transaction'' [DError e]]\<rparr>)"
    by (simp add: abort_def uow_defs)
next
  fix e s1
  assume tb: "try_block st fn s = (Inl e, s1)"
  then show tc: "fst (try_catch st fn s) = Inl e"
    by (simp add: try_catch_def abort_then_throw_fst)
  let ?m = "snd (try_catch st fn s)"
  show "case session ?m of
         None \<Rightarrow> fst (executeTransaction st fn s) = Inl e
       | Some h \<Rightarrow>
           (case fst (endSession st h (world ?m)) of
              None \<Rightarrow> fst (executeTransaction st fn s) = Inl e
            | Some e' \<Rightarrow> fst (executeTransaction st fn s) = Inl e')"
  proof (cases "session ?m")
    case None
    then have "dispose st ?m = (Inr (), ?m)" by (simp add: dispose_def)
    then show ?thesis
      using None tc finally_dispose_fst(2) [of st fn s "()"] by simp
  next
    case (Some h)
    note d = dispose_active [OF Some, of st]
    show ?thesis
    proof (cases "fst (endSession st h (world ?m))")
      case None
      then show ?thesis
        using Some tc d(4) finally_dispose_fst(2) [of st fn s "()"] by simp
    next
      case (Some e')
      then show ?thesis
        using \<open>session ?m = Some h\<close> d(5) [of e'] finally_dispose_fst(1) [of st fn s e'] by simp
    qed
  qed
qed

theorem abort_never_masks_witness:
  "abort (scripted_store None False (Some network_down) None) busy =
     (Inr (), \<lparr>session = Some 7, world = Aborted, trace =
        [Log Debug ''Aborting transaction'' [], AbortTransaction 7,
         Log Error ''Error aborting transaction'' [DError network_down]]\<rparr>) \<and>
   fst (executeTransaction (scripted_store None False (Some network_down) None)
          (throwing transient) idle) = Inl transient \<and>
   fst (executeTransaction (scripted_store None False (Some network_down) (Some session_lost))
          (throwing transient) idle) = Inl session_lost"
proof -
  let ?st = "scripted_store None False (Some network_down) None"
  let ?bad = "scripted_store None False (Some network_down) (Some session_lost)"
  have tb: "try_block ?st (throwing transient) idle =
      (Inl transient, snd (try_block ?st (throwing transient) idle))"
    by (simp add: run_defs)
  have sc: "session (snd (try_catch ?st (throwing transient) idle)) = Some 7"
    by (simp add: run_defs)
  have tb': "try_block ?bad (throwing transient) idle =
      (Inl transient, snd (try_block ?bad (throwing transient) idle))"
    by (simp add: run_defs)
  have sc': "session (snd (try_catch ?bad (throwing transient) idle)) = Some 7"
    by (simp add: run_defs)
  have a: "abort ?st busy =
     (Inr (), \<lparr>session = Some 7, world = Aborted, trace =
        [Log Debug ''Aborting transaction'' [], AbortTransaction 7,
         Log Error ''Error aborting transaction'' [DError network_down]]\<rparr>)"
    using abort_never_masks [of ?st busy "throwing transient"]
    by (simp add: busy_def scripted_store_def)
  have b: "fst (executeTransaction ?st (throwing transient) idle) = Inl transient"
    using abort_never_masks [of ?st idle "throwing transient", THEN conjunct2, THEN conjunct2,
        rule_format, OF tb] sc
    by (simp add: scripted_store_def)
  have c: "fst (executeTransaction ?bad (throwing transient) idle) = Inl session_lost"
    using abort_never_masks [of ?bad idle "throwing transient", THEN conjunct2, THEN conjunct2,
        rule_format, OF tb'] sc'
    by (simp add: scripted_store_def)
  from a b c show ?thesis by simp
qed

section \<open>Mutual exclusion of begin\<close>

text \<open>
  C8: while a session is active, \<open>begin()\<close> fails with the active-session error; it issues
  no call to the store (only the logger's warning is added), and the slot and the store
  are what they were.
\<close>

theorem begin_while_active:
  "session s = Some h \<Longrightarrow>
   begin_uow st s =
     (Inl (new_Error ''A session is already active''),
      s\<lparr>trace := trace s @ [Log Warn ''A session is already active'' []]\<rparr>)"
  by (simp add: begin_uow_def logger_def emit_def)

theorem begin_while_active_witness:
  "session busy = Some 7 \<and>
   begin_uow reliable_store busy =
     (Inl (new_Error ''A session is already active''),
      \<lparr>session = Some 7, world = InProgress,
       trace = [Log Warn ''A session is already active'' []]\<rparr>)"
  using begin_while_active [of busy 7 reliable_store] by (simp add: busy_def)

section \<open>dispose, once and twice\<close>

text \<open>
  When \<open>endSession\<close> fails, the session stays in the slot, and a second \<open>dispose()\<close> calls
  \<open>endSession\<close> on it again.
\<close>

theorem dispose_twice_counterexample:
  "session busy = Some 7 \<and>
   fst (dispose (scripted_store None False None (Some session_lost)) busy) = Inl session_lost \<and>
   calls (trace (snd (dispose (scripted_store None False None (Some session_lost)) busy))) =
     [EndSession 7] \<and>
   calls (trace (snd (dispose (scripted_store None False None (Some session_lost))
     (snd (dispose (scripted_store None False None (Some session_lost)) busy))))) =
     [EndSession 7, EndSession 7]"
  by (simp add: run_defs calls_simps)

text \<open>
  C9 (as amended): without an active session \<open>dispose()\<close> changes nothing. With an active
  session whose \<open>endSession\<close> returns, \<open>dispose()\<close> calls \<open>endSession\<close> once and clears the
  slot, and a second \<open>dispose()\<close> returns and changes nothing: twice is the same as once.
  With an active session whose \<open>endSession\<close> fails, \<open>dispose()\<close> raises that error and
  keeps the session, and a second \<open>dispose()\<close> calls \<open>endSession\<close> on it a second time.
\<close>

theorem dispose_idempotent:
  "(session s = None \<longrightarrow> dispose st s = (Inr (), s)) \<and>
   (\<forall>h. session s = Some h \<and> fst (endSession st h (world s)) = None \<longrightarrow>
      fst (dispose st s) = Inr () \<and>
      session (snd (dispose st s)) = None \<and>
      calls (trace (snd (dispose st s))) = calls (trace s) @ [EndSession h] \<and>
      dispose st (snd (dispose st s)) = (Inr (), snd (dispose st s))) \<and>
   (\<forall>h e. session s = Some h \<and> fst (endSession st h (world s)) = Some e \<longrightarrow>
      fst (dispose st s) = Inl e \<and>
      session (snd (dispose st s)) = Some h \<and>
      calls (trace (snd (dispose st (snd (dispose st s))))) =
        calls (trace s) @ [EndSession h, EndSession h])"
  by (auto simp add: dispose_def uow_defs calls_def split: option.splits prod.splits sum.splits)

theorem dispose_idempotent_witness:
  "dispose reliable_store idle = (Inr (), idle) \<and>
   session (snd (dispose reliable_store busy)) = None \<and>
   calls (trace (snd (dispose reliable_store busy))) = [EndSession 7] \<and>
   dispose reliable_store (snd (dispose reliable_store busy)) =
     (Inr (), snd (dispose reliable_store busy)) \<and>
   session (snd (dispose (scripted_store None False None (Some session_lost)) busy)) = Some 7 \<and>
   calls (trace (snd (dispose (scripted_store None False None (Some session_lost))
     (snd (dispose (scripted_store None False None (Some session_lost)) busy))))) =
     [EndSession 7, EndSession 7]"
  using dispose_idempotent [of idle reliable_store]
    dispose_idempotent [of busy reliable_store]
    dispose_idempotent [of busy "scripted_store None False None (Some session_lost)"]
  by (simp add: idle_def busy_def reliable_store_def scripted_store_def calls_simps)

section \<open>executeTransaction on a manager with an active session\<close>

text \<open>
  With a failing \<open>endSession\<close> the session that was already active stays in the slot, and
  the error raised is the one of \<open>endSession\<close>.
\<close>

theorem active_session_slot_counterexample:
  "session busy = Some 7 \<and>
   fst (executeTransaction (scripted_store None False None (Some network_down))
          (returning (42::nat)) busy) = Inl network_down \<and>
   session (snd (executeTransaction (scripted_store None False None (Some network_down))
          (returning (42::nat)) busy)) = Some 7"
  by (simp add: run_defs)

text \<open>
  C10 (as amended): called with a session \<open>h\<close> already active, \<open>executeTransaction\<close> fails
  in \<open>begin\<close> with the active-session error; it starts no session and never calls the
  transaction function. Its only calls are \<open>abortTransaction\<close> on \<open>h\<close>, if \<open>h\<close> is in a
  transaction, and then \<open>endSession\<close> on \<open>h\<close>. If that \<open>endSession\<close> returns, the slot is
  cleared and the active-session error is raised; if it fails, its error is raised and the
  slot still holds \<open>h\<close>.
\<close>

theorem executeTransaction_on_active_session:
  assumes "session s = Some h"
  shows "fst (try_block st fn s) = Inl (new_Error ''A session is already active'') \<and>
    calls (trace (snd (executeTransaction st fn s))) =
      calls (trace s) @ (if inTransaction st h (world s) then [AbortTransaction h] else []) @
        [EndSession h] \<and>
    (fst (endSession st h
        (if inTransaction st h (world s) then snd (abortTransaction st h (world s))
         else world s)) = None \<longrightarrow>
      fst (executeTransaction st fn s) = Inl (new_Error ''A session is already active'') \<and>
      session (snd (executeTransaction st fn s)) = None) \<and>
    (\<forall>e. fst (endSession st h
        (if inTransaction st h (world s) then snd (abortTransaction st h (world s))
         else world s)) = Some e \<longrightarrow>
      fst (executeTransaction st fn s) = Inl e \<and>
      session (snd (executeTransaction st fn s)) = Some h)"
proof -
  let ?active = "new_Error ''A session is already active''"
  let ?s2 = "logger Error ''Transaction execution failed'' [DError ?active]
      (logger Warn ''A session is already active'' []
        (logger Debug ''Starting transaction execution'' [] s))"
  let ?m = "try_catch st fn s"
  let ?w = "if inTransaction st h (world s) then snd (abortTransaction st h (world s))
         else world s"
  have s2: "session ?s2 = Some h" "world ?s2 = world s" "calls (trace ?s2) = calls (trace s)"
    using assms by (simp_all add: logger_simps calls_def)
  have m: "?m = abort_then_throw st ?active ?s2"
    using assms by (simp add: try_catch_def try_block_active)
  have m_fst: "fst ?m = Inl ?active"
    by (simp add: m abort_then_throw_fst)
  have m_session: "session (snd ?m) = Some h"
    by (simp add: m abort_then_throw_snd abort_session s2)
  have m_calls: "calls (trace (snd ?m)) =
      calls (trace s) @ (if inTransaction st h (world s) then [AbortTransaction h] else [])"
    using abort_calls [OF s2(1), of st] by (simp add: m abort_then_throw_snd s2)
  have "world (snd (abort st ?s2)) = ?w"
    using s2(1,2) by (auto simp add: abort_def uow_defs split: option.splits prod.splits)
  then have m_world: "world (snd ?m) = ?w"
    by (simp add: m abort_then_throw_snd)
  note d = dispose_active [OF m_session, of st]
  have 1: "fst (try_block st fn s) = Inl ?active"
    using assms by (simp add: try_block_active)
  have 2: "calls (trace (snd (executeTransaction st fn s))) =
      calls (trace s) @ (if inTransaction st h (world s) then [AbortTransaction h] else []) @
        [EndSession h]"
    unfolding finally_dispose_snd using dispose_calls [OF m_session, of st] m_calls by simp
  have 3: "fst (endSession st h ?w) = None \<longrightarrow>
      fst (executeTransaction st fn s) = Inl ?active \<and>
      session (snd (executeTransaction st fn s)) = None"
    using d(4) finally_dispose_fst(2) [of st fn s "()"] m_fst
    by (simp add: finally_dispose_snd m_world)
  have 4: "\<forall>e. fst (endSession st h ?w) = Some e \<longrightarrow>
      fst (executeTransaction st fn s) = Inl e \<and>
      session (snd (executeTransaction st fn s)) = Some h"
    using d(5) finally_dispose_fst(1) [of st fn s]
    by (simp add: finally_dispose_snd m_world)
  from 1 2 3 4 show ?thesis by blast
qed

theorem executeTransaction_on_active_session_witness:
  "session busy = Some 7 \<and>
   calls (trace (snd (executeTransaction reliable_store (returning (42::nat)) busy))) =
     [AbortTransaction 7, EndSession 7] \<and>
   fst (executeTransaction reliable_store (returning (42::nat)) busy) =
     Inl (new_Error ''A session is already active'') \<and>
   session (snd (executeTransaction reliable_store (returning (42::nat)) busy)) = None \<and>
   fst (executeTransaction (scripted_store None False None (Some network_down))
     (returning (42::nat)) busy) = Inl network_down \<and>
   session (snd (executeTransaction (scripted_store None False None (Some network_down))
     (returning (42::nat)) busy)) = Some 7"
  using executeTransaction_on_active_session [of busy 7 reliable_store "returning (42::nat)"]
    executeTransaction_on_active_session [of busy 7
      "scripted_store None False None (Some network_down)" "returning (42::nat)"]
  by (simp add: busy_def reliable_store_def scripted_store_def calls_def)

end
